theory Spec2Isabelle
  imports Main "HOL-Library.Word" "HOL-Library.Multiset"
begin

section \<open>JavaScript strings\<close>

text \<open>
  A JavaScript string is a sequence of UTF-16 code units. String literals of the source
  are ASCII and are written \<open>js ''...''\<close>.
\<close>

type_synonym jschar = "16 word"
type_synonym jsstring = "jschar list"

definition js :: "string \<Rightarrow> jsstring" where
  "js s = map of_char s"

definition LF :: jschar where
  "LF = 0x0A"

text \<open>
  The characters matched by \<open>\s\<close> in a regular expression and stripped by
  \<open>String.prototype.trim\<close>: ECMAScript's WhiteSpace (tab, vertical tab, form feed,
  space, no-break space, the byte order mark and the Unicode space separators) and
  LineTerminator (line feed, carriage return, line and paragraph separator).
\<close>

definition is_space :: "jschar \<Rightarrow> bool" where
  "is_space c \<longleftrightarrow>
     c = 0x09 \<or> c = 0x0A \<or> c = 0x0B \<or> c = 0x0C \<or> c = 0x0D \<or> c = 0x20 \<or>
     c = 0xA0 \<or> c = 0x1680 \<or> (0x2000 \<le> c \<and> c \<le> 0x200A) \<or>
     c = 0x2028 \<or> c = 0x2029 \<or> c = 0x202F \<or> c = 0x205F \<or> c = 0x3000 \<or> c = 0xFEFF"

definition trim :: "jsstring \<Rightarrow> jsstring" where
  "trim s = rev (dropWhile is_space (rev (dropWhile is_space s)))"

text \<open>
  \<open>s.split(sep)\<close> for a separator of one code unit: the pieces between the
  occurrences of the separator, in order; never an empty array.
\<close>

fun split :: "jschar \<Rightarrow> jsstring \<Rightarrow> jsstring list" where
  "split sep [] = [[]]"
| "split sep (c # cs) =
     (if c = sep then [] # split sep cs
      else (case split sep cs of
              [] \<Rightarrow> [[c]]
            | p # ps \<Rightarrow> (c # p) # ps))"

text \<open>
  Array destructuring \<open>[a, b, c] = arr\<close> reads \<open>arr[0]\<close>, \<open>arr[1]\<close>, \<open>arr[2]\<close>;
  a read past the end yields \<open>undefined\<close>, here \<open>None\<close>.
\<close>

definition at_index :: "'a list \<Rightarrow> nat \<Rightarrow> 'a option" where
  "at_index xs i = (if i < length xs then Some (xs ! i) else None)"

text \<open>A template literal \<open>`${v}`\<close> prints \<open>undefined\<close> as the word itself.\<close>

definition template :: "jsstring option \<Rightarrow> jsstring" where
  "template v = (case v of None \<Rightarrow> js ''undefined'' | Some s \<Rightarrow> s)"

section \<open>Data model\<close>

datatype SnippetType = Meta | Verse | Paragraph | Prayer | Lesson

text \<open>The string a \<open>SnippetType\<close> is at run time.\<close>

fun tag :: "SnippetType \<Rightarrow> jsstring" where
  "tag Meta = js ''meta''"
| "tag Verse = js ''verse''"
| "tag Paragraph = js ''paragraph''"
| "tag Prayer = js ''prayer''"
| "tag Lesson = js ''lesson''"

datatype language = English | Tamil

fun language_name :: "language \<Rightarrow> jsstring" where
  "language_name English = js ''English''"
| "language_name Tamil = js ''Tamil''"

text \<open>
  \<open>SnippetDataMap\<close>: the five payload shapes. \<open>MetaData\<close> holds title, language, date,
  youtubeUrl, pdfUrl, imageUrl; \<open>VerseData\<close> reference, text; \<open>ParagraphData\<close> content;
  \<open>PrayerData\<close> title, text; \<open>LessonData\<close> content.
\<close>

datatype SnippetData =
    MetaData jsstring language jsstring jsstring jsstring jsstring
  | VerseData jsstring jsstring
  | ParagraphData jsstring
  | PrayerData jsstring jsstring
  | LessonData jsstring

text \<open>
  \<open>Snippet\<close>: as in the source's type, \<open>type\<close> and \<open>data\<close> are separate fields, and
  the type does not tie one to the other. The tag is kept as the string it is at run
  time, so that the \<open>default\<close> branch of the serializer's \<open>switch\<close> is a branch of the
  model. The field \<open>id\<close> is written \<open>id'\<close>.
\<close>

record Snippet =
  id' :: int
  type :: jsstring
  data :: SnippetData

text \<open>
  Property reads on a payload object. A property the object does not have reads as
  \<open>undefined\<close>, here \<open>None\<close>.
\<close>

fun data_title :: "SnippetData \<Rightarrow> jsstring option" where
  "data_title (MetaData t l d y p i) = Some t"
| "data_title (PrayerData t x) = Some t"
| "data_title _ = None"

fun data_language :: "SnippetData \<Rightarrow> jsstring option" where
  "data_language (MetaData t l d y p i) = Some (language_name l)"
| "data_language _ = None"

fun data_date :: "SnippetData \<Rightarrow> jsstring option" where
  "data_date (MetaData t l d y p i) = Some d"
| "data_date _ = None"

fun data_reference :: "SnippetData \<Rightarrow> jsstring option" where
  "data_reference (VerseData r x) = Some r"
| "data_reference _ = None"

fun data_text :: "SnippetData \<Rightarrow> jsstring option" where
  "data_text (VerseData r x) = Some x"
| "data_text (PrayerData t x) = Some x"
| "data_text _ = None"

fun data_content :: "SnippetData \<Rightarrow> jsstring option" where
  "data_content (ParagraphData c) = Some c"
| "data_content (LessonData c) = Some c"
| "data_content _ = None"

text \<open>
  An object of the serializer's output: its properties in insertion order, each with
  its value, \<open>None\<close> for \<open>undefined\<close> (a property that \<open>JSON.stringify\<close> leaves out).
\<close>

type_synonym json_object = "(jsstring \<times> jsstring option) list"

text \<open>The own properties of a payload, in creation order: what \<open>...snippet.data\<close> spreads.\<close>

fun own_properties :: "SnippetData \<Rightarrow> json_object" where
  "own_properties (MetaData t l d y p i) =
     [(js ''title'', Some t), (js ''language'', Some (language_name l)),
      (js ''date'', Some d), (js ''youtubeUrl'', Some y), (js ''pdfUrl'', Some p),
      (js ''imageUrl'', Some i)]"
| "own_properties (VerseData r x) = [(js ''reference'', Some r), (js ''text'', Some x)]"
| "own_properties (ParagraphData c) = [(js ''content'', Some c)]"
| "own_properties (PrayerData t x) = [(js ''title'', Some t), (js ''text'', Some x)]"
| "own_properties (LessonData c) = [(js ''content'', Some c)]"

section \<open>Snippet registry\<close>

text \<open>The table of default payloads in \<open>handleAddSnippet\<close>, indexed by the type.\<close>

fun default_data :: "SnippetType \<Rightarrow> SnippetData" where
  "default_data Meta = MetaData [] English [] [] [] []"
| "default_data Verse = VerseData [] []"
| "default_data Paragraph = ParagraphData []"
| "default_data Prayer = PrayerData (js ''Prayer'') []"
| "default_data Lesson = LessonData []"

text \<open>\<open>newSnippet\<close> of \<open>handleAddSnippet\<close>; \<open>now\<close> is the value \<open>Date.now()\<close> returns.\<close>

definition newSnippet :: "int \<Rightarrow> SnippetType \<Rightarrow> Snippet" where
  "newSnippet now t = \<lparr>id' = now, type = tag t, data = default_data t\<rparr>"

text \<open>
  \<open>handleAddSnippet\<close>: the state update
  \<open>prev => type === 'meta' ? [newSnippet, ...prev] : [...prev, newSnippet]\<close>.
\<close>

definition handleAddSnippet :: "int \<Rightarrow> SnippetType \<Rightarrow> Snippet list \<Rightarrow> Snippet list" where
  "handleAddSnippet now t prev =
     (if tag t = js ''meta'' then newSnippet now t # prev else prev @ [newSnippet now t])"

definition handleUpdateSnippet :: "int \<Rightarrow> SnippetData \<Rightarrow> Snippet list \<Rightarrow> Snippet list" where
  "handleUpdateSnippet i d prev = map (\<lambda>s. if id' s = i then s\<lparr>data := d\<rparr> else s) prev"

definition handleDeleteSnippet :: "int \<Rightarrow> Snippet list \<Rightarrow> Snippet list" where
  "handleDeleteSnippet i prev = filter (\<lambda>s. id' s \<noteq> i) prev"

definition metaExists :: "Snippet list \<Rightarrow> bool" where
  "metaExists snippets = list_ex (\<lambda>snippet. type snippet = js ''meta'') snippets"

text \<open>
  The buttons of \<open>SnippetSelector\<close>. Each calls \<open>onAddSnippet\<close> with its type; the Meta
  button alone carries \<open>disabled={metaExists}\<close>, and a disabled button receives no
  click, so that its handler does not run.
\<close>

definition SnippetSelector_click :: "int \<Rightarrow> SnippetType \<Rightarrow> Snippet list \<Rightarrow> Snippet list" where
  "SnippetSelector_click now t snippets =
     (if t = Meta \<and> metaExists snippets then snippets else handleAddSnippet now t snippets)"

section \<open>Serializer\<close>

text \<open>
  The callback of \<open>snippets.map\<close> in the serialization effect: the \<open>switch\<close> on
  \<open>snippet.type\<close>, \<open>None\<close> for the \<open>null\<close> of its \<open>default\<close> branch.
\<close>

definition output_entry :: "Snippet \<Rightarrow> json_object option" where
  "output_entry snippet =
     (if type snippet = js ''meta'' then
        Some ((js ''type'', Some (js ''meta'')) # own_properties (data snippet))
      else if type snippet = js ''verse'' then
        Some [(js ''type'', Some (js ''verse'')),
              (js ''reference'', data_reference (data snippet)),
              (js ''text'', data_text (data snippet))]
      else if type snippet = js ''paragraph'' then
        Some [(js ''type'', Some (js ''paragraph'')),
              (js ''content'', data_content (data snippet))]
      else if type snippet = js ''prayer'' then
        Some [(js ''type'', Some (js ''prayer'')),
              (js ''title'', data_title (data snippet)),
              (js ''text'', data_text (data snippet))]
      else if type snippet = js ''lesson'' then
        Some [(js ''type'', Some (js ''lesson'')),
              (js ''content'', data_content (data snippet))]
      else None)"

text \<open>
  \<open>output\<close> (here \<open>output_array\<close>): the mapped array after \<open>.filter(Boolean)\<close>, which drops the \<open>null\<close>
  entries and keeps every object. It is the value handed to \<open>JSON.stringify\<close>.
\<close>

definition output_array :: "Snippet list \<Rightarrow> json_object list" where
  "output_array snippets = List.map_filter output_entry snippets"

text \<open>
  The serializer as the specification words it, for comparison with \<open>output_array\<close>: one
  object per record of a recognized kind, of the shape listed for that kind, in the
  order of the records; records of any other kind are left out.
\<close>

definition recognized :: "Snippet \<Rightarrow> bool" where
  "recognized s \<longleftrightarrow> type s \<in> tag ` {Meta, Verse, Paragraph, Prayer, Lesson}"

fun spec_shape :: "SnippetData \<Rightarrow> json_object" where
  "spec_shape (MetaData t l d y p i) =
     [(js ''type'', Some (js ''meta'')), (js ''title'', Some t),
      (js ''language'', Some (language_name l)), (js ''date'', Some d),
      (js ''youtubeUrl'', Some y), (js ''pdfUrl'', Some p), (js ''imageUrl'', Some i)]"
| "spec_shape (VerseData r x) =
     [(js ''type'', Some (js ''verse'')), (js ''reference'', Some r), (js ''text'', Some x)]"
| "spec_shape (ParagraphData c) =
     [(js ''type'', Some (js ''paragraph'')), (js ''content'', Some c)]"
| "spec_shape (PrayerData t x) =
     [(js ''type'', Some (js ''prayer'')), (js ''title'', Some t), (js ''text'', Some x)]"
| "spec_shape (LessonData c) =
     [(js ''type'', Some (js ''lesson'')), (js ''content'', Some c)]"

definition spec_serialize :: "Snippet list \<Rightarrow> json_object list" where
  "spec_serialize records = map (\<lambda>s. spec_shape (data s)) (filter recognized records)"

text \<open>A record whose payload has the shape of its tag.\<close>

fun kind_of :: "SnippetData \<Rightarrow> SnippetType" where
  "kind_of (MetaData t l d y p i) = Meta"
| "kind_of (VerseData r x) = Verse"
| "kind_of (ParagraphData c) = Paragraph"
| "kind_of (PrayerData t x) = Prayer"
| "kind_of (LessonData c) = Lesson"

definition well_typed :: "Snippet \<Rightarrow> bool" where
  "well_typed s \<longleftrightarrow> type s = tag (kind_of (data s))"

section \<open>Download file name\<close>

text \<open>\<open>snippets.find(s => s.type === 'meta')\<close>: the first match, or \<open>undefined\<close>.\<close>

definition metaSnippet :: "Snippet list \<Rightarrow> Snippet option" where
  "metaSnippet snippets = List.find (\<lambda>s. type s = js ''meta'') snippets"

text \<open>
  The \<open>filename\<close> computed by \<open>handleDownload\<close>. The guard needs a Meta record whose
  \<open>data.date\<close> is truthy: neither \<open>undefined\<close> nor the empty string. Nothing in the
  \<open>try\<close> block throws (\<open>split\<close> on a string, destructuring an array, a template
  literal), so its \<open>catch\<close> has no branch here.
\<close>

definition filename :: "Snippet list \<Rightarrow> jsstring" where
  "filename snippets =
     (case metaSnippet snippets of
        None \<Rightarrow> js ''content.json''
      | Some m \<Rightarrow>
          (case data_date (data m) of
             None \<Rightarrow> js ''content.json''
           | Some d \<Rightarrow>
               if d = [] then js ''content.json''
               else
                 (let parts = split (of_char CHR ''-'') d;
                      year = at_index parts 0;
                      month = at_index parts 1;
                      day = at_index parts 2;
                      formattedDate =
                        template day @ js ''-'' @ template month @ js ''-'' @ template year;
                      langCode =
                        (if data_language (data m) = Some (js ''Tamil'')
                         then js ''TA'' else js ''EN'')
                  in formattedDate @ js ''-'' @ langCode @ js ''.json'')))"

section \<open>Reorder engine\<close>

text \<open>
  \<open>Array.prototype.splice(start, deleteCount, ...items)\<close> on integer arguments. A
  negative \<open>start\<close> counts from the end, and both arguments are clamped to the array.
  The result is the array of removed elements and the array after the call. The
  function is written \<open>splice'\<close>.
\<close>

definition actualStart :: "int \<Rightarrow> nat \<Rightarrow> nat" where
  "actualStart start len =
     (if start < 0 then nat (max (int len + start) 0) else min (nat start) len)"

definition splice' :: "int \<Rightarrow> int \<Rightarrow> 'a list \<Rightarrow> 'a list \<Rightarrow> 'a list \<times> 'a list" where
  "splice' start deleteCount items xs =
     (let len = length xs;
          a = actualStart start len;
          d = nat (min (max deleteCount 0) (int len - int a))
      in (take d (drop a xs), take a xs @ items @ drop (a + d) xs))"

text \<open>
  The state update of \<open>handleDrop\<close>, with \<open>src\<close> the value of \<open>dragItemRef.current\<close>.
  When the first \<open>splice\<close> removes nothing, \<open>reorderedItem\<close> is \<open>undefined\<close> and the
  second \<open>splice\<close> writes \<open>undefined\<close> into the array, which is then no array of
  snippets any more: the result is \<open>None\<close>.
\<close>

definition reorder :: "int \<Rightarrow> int \<Rightarrow> 'a list \<Rightarrow> 'a list option" where
  "reorder src index prev =
     (let (removed, newSnippets) = splice' src 1 [] prev
      in case removed of
           [] \<Rightarrow> None
         | reorderedItem # _ \<Rightarrow> Some (snd (splice' index 0 [reorderedItem] newSnippets)))"

text \<open>
  The state of \<open>App\<close> that the drag handlers read and write. \<open>dragging_active\<close> is the
  class of that name on the document body. \<open>jsonOutput\<close> is no field: the effect
  recomputes it from \<open>snippets\<close> after every change. What \<open>handleDragStart\<close> writes
  to the event's \<open>dataTransfer\<close> and the \<open>preventDefault\<close> of \<open>handleDragOver\<close> stay
  with the event and are not state of \<open>App\<close>.
\<close>

record app_state =
  snippets :: "Snippet list"
  draggedIndex :: "int option"
  dragOverIndex :: "int option"
  dragItemRef :: "int option"
  dragging_active :: bool

text \<open>
  \<open>handleDrop\<close> raises nothing. The one outcome that is no state of the model, a list
  that holds \<open>undefined\<close>, is reported as \<open>Inl UndefinedItem\<close>.
\<close>

datatype drop_error = UndefinedItem

definition handleDragStart :: "int \<Rightarrow> app_state \<Rightarrow> app_state" where
  "handleDragStart index st =
     st\<lparr>dragItemRef := Some index, draggedIndex := Some index, dragging_active := True\<rparr>"

definition handleDragEnter :: "int \<Rightarrow> app_state \<Rightarrow> app_state" where
  "handleDragEnter index st =
     (if dragItemRef st = None then st else st\<lparr>dragOverIndex := Some index\<rparr>)"

definition handleDragOver :: "app_state \<Rightarrow> app_state" where
  "handleDragOver st = st"

definition handleDrop :: "int \<Rightarrow> app_state \<Rightarrow> drop_error + app_state" where
  "handleDrop index st =
     (case dragItemRef st of
        None \<Rightarrow> Inr st
      | Some src \<Rightarrow>
          if src = index then Inr st
          else (case reorder src index (snippets st) of
                  None \<Rightarrow> Inl UndefinedItem
                | Some newSnippets \<Rightarrow> Inr (st\<lparr>snippets := newSnippets\<rparr>)))"

definition handleDragEnd :: "app_state \<Rightarrow> app_state" where
  "handleDragEnd st =
     st\<lparr>dragItemRef := None, draggedIndex := None, dragOverIndex := None,
        dragging_active := False\<rparr>"

text \<open>
  The reordering as the specification words it: remove the element at the source index,
  then insert it at the target index of the list without it.
\<close>

definition remove_at :: "nat \<Rightarrow> 'a list \<Rightarrow> 'a list" where
  "remove_at i xs = take i xs @ drop (Suc i) xs"

definition insert_at :: "nat \<Rightarrow> 'a \<Rightarrow> 'a list \<Rightarrow> 'a list" where
  "insert_at i x xs = take i xs @ x # drop i xs"

definition spec_move :: "nat \<Rightarrow> nat \<Rightarrow> 'a list \<Rightarrow> 'a list" where
  "spec_move sourceIndex targetIndex xs =
     insert_at targetIndex (xs ! sourceIndex) (remove_at sourceIndex xs)"

section \<open>Sequences of registry operations\<close>

text \<open>
  A history of the registry: \<open>Add now t\<close> is a call of \<open>handleAddSnippet\<close> at which
  \<open>Date.now()\<close> returns \<open>now\<close>, \<open>Delete i\<close> a call of \<open>handleDeleteSnippet\<close>. The
  application starts from the empty list.
\<close>

datatype registry_op = Add int SnippetType | Delete int

fun apply_op :: "registry_op \<Rightarrow> Snippet list \<Rightarrow> Snippet list" where
  "apply_op (Add now t) prev = handleAddSnippet now t prev"
| "apply_op (Delete i) prev = handleDeleteSnippet i prev"

fun run_ops :: "registry_op list \<Rightarrow> Snippet list \<Rightarrow> Snippet list" where
  "run_ops [] prev = prev"
| "run_ops (x # ops) prev = run_ops ops (apply_op x prev)"

text \<open>The ids given to the records created along a history, in order of creation.\<close>

fun assigned_ids :: "registry_op list \<Rightarrow> int list" where
  "assigned_ids [] = []"
| "assigned_ids (Add now t # ops) = id' (newSnippet now t) # assigned_ids ops"
| "assigned_ids (Delete i # ops) = assigned_ids ops"

text \<open>The values \<open>Date.now()\<close> returned at the additions of a history.\<close>

fun clock_readings :: "registry_op list \<Rightarrow> int list" where
  "clock_readings [] = []"
| "clock_readings (Add now t # ops) = now # clock_readings ops"
| "clock_readings (Delete i # ops) = clock_readings ops"

section \<open>Rich text to Markdown\<close>

text \<open>
  The DOM below \<open>doc.body\<close>: text nodes (\<open>nodeType\<close> 3) with their text content,
  elements (\<open>nodeType\<close> 1) with their \<open>tagName\<close> and child nodes, and nodes of any other
  type, such as comments. \<open>tagName\<close> is what the DOM reports: upper case for an HTML
  element, the lower-case name the parser read for an SVG or MathML element.
\<close>

datatype node = Text jsstring | Element jsstring "node list" | Other

text \<open>
  \<open>doc.querySelectorAll('script, style').forEach(el => el.remove())\<close>: the selector
  matches an element by its local name, in any namespace.
\<close>

definition is_script_or_style :: "node \<Rightarrow> bool" where
  "is_script_or_style n =
     (case n of
        Element tagName childNodes \<Rightarrow>
          tagName = js ''SCRIPT'' \<or> tagName = js ''STYLE'' \<or>
          tagName = js ''script'' \<or> tagName = js ''style''
      | _ \<Rightarrow> False)"

fun remove_script_style :: "node \<Rightarrow> node" where
  "remove_script_style (Element tagName childNodes) =
     Element tagName
       (map remove_script_style (filter (\<lambda>n. \<not> is_script_or_style n) childNodes))"
| "remove_script_style n = n"

text \<open>The \<open>switch (element.tagName)\<close> of \<open>walk\<close>, applied to the rendered children.\<close>

definition tagName_switch :: "jsstring \<Rightarrow> jsstring \<Rightarrow> jsstring" where
  "tagName_switch tagName children =
     (if tagName = js ''STRONG'' \<or> tagName = js ''B'' then js ''**'' @ children @ js ''**''
      else if tagName = js ''EM'' \<or> tagName = js ''I'' then js ''*'' @ children @ js ''*''
      else if tagName = js ''P'' then [LF] @ children @ [LF]
      else if tagName = js ''LI'' then js ''- '' @ trim children @ [LF]
      else if tagName = js ''UL'' \<or> tagName = js ''OL'' then trim children @ [LF]
      else if tagName = js ''BR'' then [LF]
      else children)"

text \<open>\<open>walk\<close>, on a call stack without bound.\<close>

fun walk :: "node \<Rightarrow> jsstring" where
  "walk (Text textContent) = textContent"
| "walk Other = []"
| "walk (Element tagName childNodes) = tagName_switch tagName (concat (map walk childNodes))"




text \<open>
  \<open>markdown.replace(/\n\s*\n/g, '\n\n')\<close>. A match starts at a line feed that is
  followed, within the white space after it, by another line feed; \<open>\s*\<close> is greedy, so
  the match ends at the last line feed of that white space. The search goes on behind
  the match.
\<close>

function replace_blank_lines :: "jsstring \<Rightarrow> jsstring" where
  "replace_blank_lines [] = []"
| "replace_blank_lines (c # cs) =
     (if c = LF \<and> LF \<in> set (takeWhile is_space cs)
      then LF # LF #
           replace_blank_lines
             (rev (takeWhile (\<lambda>x. x \<noteq> LF) (rev (takeWhile is_space cs))) @
              dropWhile is_space cs)
      else c # replace_blank_lines cs)"
  by pat_completeness auto
termination
proof (relation "measure length")
  fix c :: jschar and cs :: jsstring
  have "length (takeWhile (\<lambda>x. x \<noteq> LF) (rev (takeWhile is_space cs)))
          \<le> length (takeWhile is_space cs)"
    using length_takeWhile_le [of "\<lambda>x. x \<noteq> LF" "rev (takeWhile is_space cs)"] by simp
  moreover have "length (takeWhile is_space cs) + length (dropWhile is_space cs) = length cs"
    by (metis length_append takeWhile_dropWhile_id)
  ultimately show
    "(rev (takeWhile (\<lambda>x. x \<noteq> LF) (rev (takeWhile is_space cs))) @ dropWhile is_space cs,
      c # cs) \<in> measure length"
    by simp
qed simp_all

text \<open>
  The text that the search goes on with behind a match that started before \<open>cs\<close>: the
  white space behind the last line feed of the match, then the text from the first
  character that is no white space. It is the argument of the recursive call above.
\<close>

definition after_match :: "jsstring \<Rightarrow> jsstring" where
  "after_match cs =
     rev (takeWhile (\<lambda>x. x \<noteq> LF) (rev (takeWhile is_space cs))) @ dropWhile is_space cs"

text \<open>
  \<open>htmlToMarkdown\<close>. The HTML parser is the browser's, not the program's: it is the
  parameter \<open>parseFromString\<close>, which takes the document text to the \<open>body\<close> element of
  the parsed document. Parsing as \<open>text/html\<close> yields a document for every text and
  does not throw.
\<close>

definition htmlToMarkdown :: "(jsstring \<Rightarrow> node) \<Rightarrow> jsstring \<Rightarrow> jsstring" where
  "htmlToMarkdown parseFromString html =
     (if html = [] then []
      else
        (let body = remove_script_style
                      (parseFromString (js ''<body>'' @ html @ js ''</body>''));
             markdown = walk body
         in trim (replace_blank_lines markdown)))"


text \<open>
  The rendering as the specification words it, for comparison with \<open>walk\<close> after the
  removal: script and style elements yield nothing, wherever they are; a text node
  yields its text; an element yields the rendering of its children, transformed by the
  table of tags.
\<close>

definition spec_transform :: "jsstring \<Rightarrow> jsstring \<Rightarrow> jsstring" where
  "spec_transform t children =
     (if t \<in> {js ''STRONG'', js ''B''} then js ''**'' @ children @ js ''**''
      else if t \<in> {js ''EM'', js ''I''} then js ''*'' @ children @ js ''*''
      else if t = js ''P'' then LF # children @ [LF]
      else if t = js ''LI'' then js ''- '' @ trim children @ [LF]
      else if t \<in> {js ''UL'', js ''OL''} then trim children @ [LF]
      else if t = js ''BR'' then [LF]
      else children)"

fun spec_render :: "node \<Rightarrow> jsstring" where
  "spec_render (Text t) = t"
| "spec_render Other = []"
| "spec_render (Element t ns) =
     spec_transform t
       (concat (map (\<lambda>n. if is_script_or_style n then [] else spec_render n) ns))"

text \<open>Whether a script or style element occurs below a node, at any depth.\<close>

fun contains_script_style :: "node \<Rightarrow> bool" where
  "contains_script_style (Element t ns) =
     list_ex (\<lambda>n. is_script_or_style n \<or> contains_script_style n) ns"
| "contains_script_style n = False"

text \<open>
  The \<open>body\<close> elements that the HTML parsing algorithm builds for the three example
  fragments, and a parser that is defined on these three documents.
\<close>

definition body_bold :: node where
  "body_bold = Element (js ''BODY'') [Element (js ''B'') [Text (js ''Hi'')], Text (js '' there'')]"

definition body_list :: node where
  "body_list =
     Element (js ''BODY'')
       [Element (js ''UL'')
          [Element (js ''LI'') [Text (js ''one'')], Element (js ''LI'') [Text (js ''two'')]]]"

definition body_script :: node where
  "body_script =
     Element (js ''BODY'') [Element (js ''SCRIPT'') [Text (js ''evil()'')], Text (js ''Safe'')]"

definition example_parser :: "jsstring \<Rightarrow> node" where
  "example_parser document =
     (if document = js ''<body><b>Hi</b> there</body>'' then body_bold
      else if document = js ''<body><ul><li>one</li><li>two</li></ul></body>'' then body_list
      else if document = js ''<body><script>evil()</script>Safe</body>'' then body_script
      else Element (js ''BODY'') [])"



section \<open>Properties of the registry\<close>

lemma tag_meta_iff: "tag t = js ''meta'' \<longleftrightarrow> t = Meta"
  by (cases t) (simp_all add: js_def)

lemma id_newSnippet: "id' (newSnippet now t) = now"
  by (simp add: newSnippet_def)

lemma type_newSnippet: "type (newSnippet now t) = tag t"
  by (simp add: newSnippet_def)

text \<open>
  C1, as amended. \<open>handleAddSnippet\<close> has no check for a second Meta record and there is
  no \<open>DuplicateMetaError\<close>: the guard is the \<open>disabled\<close> attribute of the selector's Meta
  button. When the list holds a Meta record, a click on that button leaves the list as
  it is, while a direct call of \<open>handleAddSnippet\<close> with Meta still puts a further Meta
  record in front.
\<close>

theorem meta_button_disabled:
  "metaExists xs \<Longrightarrow>
     SnippetSelector_click now Meta xs = xs \<and>
     handleAddSnippet now Meta xs = newSnippet now Meta # xs"
  by (simp add: SnippetSelector_click_def handleAddSnippet_def)

theorem meta_button_disabled_witness:
  "metaExists [newSnippet 1 Meta] \<and>
   SnippetSelector_click 2 Meta [newSnippet 1 Meta] = [newSnippet 1 Meta] \<and>
   handleAddSnippet 2 Meta [newSnippet 1 Meta] = [newSnippet 2 Meta, newSnippet 1 Meta]"
proof -
  have h: "metaExists [newSnippet 1 Meta]"
    by (simp add: metaExists_def type_newSnippet)
  show ?thesis
    using h meta_button_disabled [OF h, of 2] by simp
qed

text \<open>
  The add operation itself, on a list that holds a Meta record: a second Meta record is
  created and the list changes.
\<close>

theorem handleAddSnippet_second_meta:
  "metaExists [newSnippet 1 Meta] \<and>
   handleAddSnippet 2 Meta [newSnippet 1 Meta] = [newSnippet 2 Meta, newSnippet 1 Meta] \<and>
   handleAddSnippet 2 Meta [newSnippet 1 Meta] \<noteq> [newSnippet 1 Meta]"
  by (simp add: metaExists_def handleAddSnippet_def type_newSnippet)

text \<open>
  C3. Adding Meta puts the new record at position 0, in front of the list as it was;
  adding any other kind puts the new record behind the list as it was. The records
  already there keep their order and their contents.
\<close>

theorem handleAddSnippet_position:
  "handleAddSnippet now Meta prev = newSnippet now Meta # prev \<and>
   (t \<noteq> Meta \<longrightarrow> handleAddSnippet now t prev = prev @ [newSnippet now t])"
  by (simp add: handleAddSnippet_def tag_meta_iff)

theorem handleAddSnippet_position_witness:
  "handleAddSnippet 7 Meta [newSnippet 1 Verse] = [newSnippet 7 Meta, newSnippet 1 Verse] \<and>
   Prayer \<noteq> Meta \<and>
   handleAddSnippet 7 Prayer [newSnippet 1 Verse] = [newSnippet 1 Verse, newSnippet 7 Prayer]"
  using handleAddSnippet_position [of 7 "[newSnippet 1 Verse]" Prayer] by simp

subsection \<open>Identifiers\<close>

lemma assigned_ids_clock: "assigned_ids ops = clock_readings ops"
  by (induction ops rule: assigned_ids.induct) (simp_all add: id_newSnippet)

lemma ids_handleAddSnippet:
  "id' ` set (handleAddSnippet now t xs) = insert now (id' ` set xs)"
  by (simp add: handleAddSnippet_def id_newSnippet)

lemma distinct_handleAddSnippet:
  "distinct (map id' (handleAddSnippet now t xs)) \<longleftrightarrow>
     now \<notin> set (map id' xs) \<and> distinct (map id' xs)"
  by (auto simp add: handleAddSnippet_def id_newSnippet)

lemma ids_handleDeleteSnippet:
  "id' ` set (handleDeleteSnippet i xs) \<subseteq> id' ` set xs"
  by (auto simp add: handleDeleteSnippet_def)

lemma distinct_handleDeleteSnippet:
  "distinct (map id' xs) \<Longrightarrow> distinct (map id' (handleDeleteSnippet i xs))"
  by (simp add: handleDeleteSnippet_def distinct_map_filter)

text \<open>
  The invariant of a history whose clock readings are distinct and new to the list: the
  ids in the list stay distinct, and each is an id of the start or a clock reading.
\<close>

lemma run_ops_ids:
  "distinct (map id' xs) \<Longrightarrow> distinct (clock_readings ops) \<Longrightarrow>
   set (map id' xs) \<inter> set (clock_readings ops) = {} \<Longrightarrow>
     distinct (map id' (run_ops ops xs)) \<and>
     set (map id' (run_ops ops xs)) \<subseteq> set (map id' xs) \<union> set (clock_readings ops)"
proof (induction ops arbitrary: xs)
  case Nil
  then show ?case by simp
next
  case (Cons x ops)
  show ?case
  proof (cases x)
    case (Add now t)
    let ?ys = "handleAddSnippet now t xs"
    from Cons.prems Add have fresh: "now \<notin> set (map id' xs)" and
      later: "now \<notin> set (clock_readings ops)" and d: "distinct (clock_readings ops)"
      by auto
    have 1: "distinct (map id' ?ys)"
      using fresh Cons.prems(1) by (simp add: distinct_handleAddSnippet)
    have 2: "set (map id' ?ys) \<inter> set (clock_readings ops) = {}"
      using Cons.prems(3) later Add by (auto simp add: ids_handleAddSnippet)
    from Cons.IH [OF 1 d 2] show ?thesis
      using Add by (auto simp add: ids_handleAddSnippet)
  next
    case (Delete i)
    let ?ys = "handleDeleteSnippet i xs"
    have 1: "distinct (map id' ?ys)"
      using Cons.prems(1) by (rule distinct_handleDeleteSnippet)
    have d: "distinct (clock_readings ops)"
      using Cons.prems(2) Delete by simp
    have 2: "set (map id' ?ys) \<inter> set (clock_readings ops) = {}"
      using Cons.prems(3) Delete ids_handleDeleteSnippet [of i xs] by fastforce
    from Cons.IH [OF 1 d 2] show ?thesis
      using Delete ids_handleDeleteSnippet [of i xs] by fastforce
  qed
qed

text \<open>
  C4. The id of a record is the clock reading at its creation and nothing else, although
  the program takes the id for the identity of a record: it is the React key, and update
  and delete select by it. Two additions at one clock reading give two records of one
  id; a deletion of that id then removes both, and an update of that id overwrites the
  payload of both, whatever their kinds. An addition at the reading of a deleted record
  gives the id of the deleted record again.
\<close>

theorem same_clock_same_id:
  "assigned_ids [Add 1000 Verse, Add 1000 Prayer] = [1000, 1000] \<and>
   \<not> distinct (assigned_ids [Add 1000 Verse, Add 1000 Prayer]) \<and>
   map id' (run_ops [Add 1000 Verse, Add 1000 Prayer] []) = [1000, 1000] \<and>
   run_ops [Add 1000 Verse, Add 1000 Prayer, Delete 1000] [] = [] \<and>
   map data
     (handleUpdateSnippet 1000 (VerseData (js ''John 3:16'') [])
        (run_ops [Add 1000 Verse, Add 1000 Prayer] [])) =
     [VerseData (js ''John 3:16'') [], VerseData (js ''John 3:16'') []] \<and>
   assigned_ids [Add 1000 Verse, Delete 1000, Add 1000 Verse] = [1000, 1000]"
  by (simp add: id_newSnippet handleAddSnippet_def handleDeleteSnippet_def
        handleUpdateSnippet_def tag_meta_iff)

section \<open>Properties of the reorder engine\<close>

text \<open>
  C9. Starting a drag, entering another item during the drag, dragging over the list and
  ending the drag without a drop leave the list of snippets as it is; they write only
  \<open>dragItemRef\<close>, \<open>draggedIndex\<close>, \<open>dragOverIndex\<close> and the body's class.
\<close>

theorem drag_handlers_keep_snippets:
  "snippets (handleDragStart index st) = snippets st \<and>
   snippets (handleDragEnter index st) = snippets st \<and>
   snippets (handleDragOver st) = snippets st \<and>
   snippets (handleDragEnd st) = snippets st"
  by (simp add: handleDragStart_def handleDragEnter_def handleDragOver_def handleDragEnd_def)

subsection \<open>Dropping\<close>

lemma actualStart_index: "0 \<le> i \<Longrightarrow> i \<le> int n \<Longrightarrow> actualStart i n = nat i"
  by (simp add: actualStart_def)

lemma length_remove_at: "i < length xs \<Longrightarrow> length (remove_at i xs) = length xs - 1"
  by (simp add: remove_at_def)

lemma splice_remove_one:
  assumes "a < length xs"
  shows "splice' (int a) 1 [] xs = ([xs ! a], remove_at a xs)"
proof -
  have "take (Suc 0) (drop a xs) = [xs ! a]"
    using assms by (simp add: take_Suc_conv_app_nth)
  then show ?thesis
    using assms by (simp add: splice'_def actualStart_def remove_at_def Let_def)
qed

lemma splice_insert_one:
  "splice' i 0 [x] ys = ([], insert_at (actualStart i (length ys)) x ys)"
  by (simp add: splice'_def insert_at_def Let_def)

lemma reorder_in_range:
  assumes "0 \<le> src" and "src < int (length xs)"
  shows "reorder src i xs =
           Some (insert_at (actualStart i (length xs - 1)) (xs ! nat src) (remove_at (nat src) xs))"
proof -
  have a: "nat src < length xs" using assms by simp
  have "splice' src 1 [] xs = ([xs ! nat src], remove_at (nat src) xs)"
    using splice_remove_one [OF a] assms(1) by simp
  then show ?thesis
    using a by (simp add: reorder_def splice_insert_one length_remove_at)
qed

lemma nth_insert_at: "i \<le> length ys \<Longrightarrow> insert_at i x ys ! i = x"
  by (simp add: insert_at_def nth_append)

lemma remove_at_insert_at: "i \<le> length ys \<Longrightarrow> remove_at i (insert_at i x ys) = ys"
  by (simp add: insert_at_def remove_at_def)

lemma mset_insert_at: "mset (insert_at i x ys) = add_mset x (mset ys)"
proof -
  have "mset (take i ys @ x # drop i ys) = add_mset x (mset (take i ys @ drop i ys))"
    by (simp del: append_take_drop_id)
  then show ?thesis by (simp add: insert_at_def)
qed

lemma mset_remove_at: "i < length xs \<Longrightarrow> add_mset (xs ! i) (mset (remove_at i xs)) = mset xs"
proof -
  assume "i < length xs"
  then have "xs = take i xs @ xs ! i # drop (Suc i) xs"
    by (rule id_take_nth_drop)
  then have "mset xs = mset (take i xs @ xs ! i # drop (Suc i) xs)"
    by simp
  then show ?thesis by (simp add: remove_at_def)
qed

text \<open>
  C2. In a drag from \<open>sourceIndex\<close>, with both indices positions of the list: a drop on
  the source index leaves the state as it is; a drop on any other index sets the list to
  the one obtained by removing the element at \<open>sourceIndex\<close> and inserting it at
  \<open>targetIndex\<close> of the list without it. In that list the moved record, with its id,
  is at position \<open>targetIndex\<close>, and taking it out again gives the original list
  without the moved record: all other records keep their relative order.
\<close>

theorem handleDrop_moves:
  assumes "dragItemRef st = Some sourceIndex"
    and "0 \<le> sourceIndex" and "sourceIndex < int (length (snippets st))"
    and "0 \<le> targetIndex" and "targetIndex < int (length (snippets st))"
  shows "handleDrop targetIndex st =
           Inr (if targetIndex = sourceIndex then st
                else st\<lparr>snippets :=
                  spec_move (nat sourceIndex) (nat targetIndex) (snippets st)\<rparr>) \<and>
         id' (spec_move (nat sourceIndex) (nat targetIndex) (snippets st) ! nat targetIndex) =
           id' (snippets st ! nat sourceIndex) \<and>
         remove_at (nat targetIndex)
             (spec_move (nat sourceIndex) (nat targetIndex) (snippets st)) =
           remove_at (nat sourceIndex) (snippets st)"
proof -
  let ?xs = "snippets st"
  let ?ys = "remove_at (nat sourceIndex) ?xs"
  have len: "length ?ys = length ?xs - 1"
    using assms(2,3) by (simp add: length_remove_at)
  have t: "nat targetIndex \<le> length ?ys"
    using assms(4,5) len by simp
  have s: "actualStart targetIndex (length ?xs - 1) = nat targetIndex"
    using assms(4,5) by (simp add: actualStart_index)
  have "reorder sourceIndex targetIndex ?xs =
          Some (spec_move (nat sourceIndex) (nat targetIndex) ?xs)"
    using reorder_in_range [OF assms(2,3), of targetIndex] s by (simp add: spec_move_def)
  then have 1: "handleDrop targetIndex st =
           Inr (if targetIndex = sourceIndex then st
                else st\<lparr>snippets := spec_move (nat sourceIndex) (nat targetIndex) ?xs\<rparr>)"
    using assms(1) by (simp add: handleDrop_def)
  have 2: "spec_move (nat sourceIndex) (nat targetIndex) ?xs ! nat targetIndex =
             ?xs ! nat sourceIndex"
    using t by (simp add: spec_move_def nth_insert_at)
  have 3: "remove_at (nat targetIndex) (spec_move (nat sourceIndex) (nat targetIndex) ?xs) = ?ys"
    using t by (simp add: spec_move_def remove_at_insert_at)
  from 1 2 3 show ?thesis by simp
qed

theorem handleDrop_moves_witness:
  "dragItemRef \<lparr>snippets = [newSnippet 1 Verse, newSnippet 2 Prayer, newSnippet 3 Lesson],
      draggedIndex = Some 0, dragOverIndex = Some 2, dragItemRef = Some 0,
      dragging_active = True\<rparr> = Some 0 \<and>
   (0::int) \<le> 0 \<and> (0::int) < int (length [newSnippet 1 Verse, newSnippet 2 Prayer, newSnippet 3 Lesson]) \<and>
   (0::int) \<le> 2 \<and> (2::int) < int (length [newSnippet 1 Verse, newSnippet 2 Prayer, newSnippet 3 Lesson]) \<and>
   handleDrop 2 \<lparr>snippets = [newSnippet 1 Verse, newSnippet 2 Prayer, newSnippet 3 Lesson],
      draggedIndex = Some 0, dragOverIndex = Some 2, dragItemRef = Some 0,
      dragging_active = True\<rparr> =
   Inr \<lparr>snippets = [newSnippet 2 Prayer, newSnippet 3 Lesson, newSnippet 1 Verse],
      draggedIndex = Some 0, dragOverIndex = Some 2, dragItemRef = Some 0,
      dragging_active = True\<rparr>"
  using handleDrop_moves [of "\<lparr>snippets = [newSnippet 1 Verse, newSnippet 2 Prayer, newSnippet 3 Lesson],
      draggedIndex = Some 0, dragOverIndex = Some 2, dragItemRef = Some 0,
      dragging_active = True\<rparr>" 0 2]
  by (simp add: spec_move_def insert_at_def remove_at_def)

text \<open>
  In a drag from a position of the list, a drop on any integer index, in range or not,
  yields a list with the same records as before, each as often as before, and of the
  same length.
\<close>

lemma handleDrop_in_range_permutes:
  assumes "dragItemRef st = Some sourceIndex"
    and "0 \<le> sourceIndex" and "sourceIndex < int (length (snippets st))"
  shows "\<exists>st'. handleDrop index st = Inr st' \<and>
               mset (snippets st') = mset (snippets st) \<and>
               length (snippets st') = length (snippets st)"
proof (cases "sourceIndex = index")
  case True
  then show ?thesis using assms(1) by (simp add: handleDrop_def)
next
  case False
  let ?xs = "snippets st"
  let ?new = "insert_at (actualStart index (length ?xs - 1)) (?xs ! nat sourceIndex)
                (remove_at (nat sourceIndex) ?xs)"
  have a: "nat sourceIndex < length ?xs" using assms(2,3) by simp
  have r: "reorder sourceIndex index ?xs = Some ?new"
    by (rule reorder_in_range [OF assms(2,3)])
  have m: "mset ?new = mset ?xs"
    using mset_remove_at [OF a] by (simp add: mset_insert_at)
  then have "size (mset ?new) = size (mset ?xs)" by simp
  then have l: "length ?new = length ?xs" by simp
  have "handleDrop index st = Inr (st\<lparr>snippets := ?new\<rparr>)"
    using False assms(1) r by (simp add: handleDrop_def)
  with m l show ?thesis by simp
qed

text \<open>
  C10. A drop only reorders as long as the dragged index is a position of the list.
  \<open>handleDrop\<close> does not check that it still is one: \<open>dragItemRef\<close> keeps the index of
  the drag's start until \<open>handleDragEnd\<close>, whatever happens to the list. With three
  records, a drag started on the last one and the first record deleted since, the
  dragged index 2 is past the end of the two records left; the first \<open>splice\<close> removes
  nothing, and the drop on index 0 writes \<open>undefined\<close> in front of them: the list
  after the drop has three entries and is no permutation of the list before.
\<close>

theorem handleDrop_stale_index:
  "handleDrop 0
     ((handleDragStart 2
         \<lparr>snippets = [newSnippet 1 Verse, newSnippet 2 Prayer, newSnippet 3 Lesson],
            draggedIndex = None, dragOverIndex = None, dragItemRef = None,
            dragging_active = False\<rparr>)
      \<lparr>snippets :=
         handleDeleteSnippet 1 [newSnippet 1 Verse, newSnippet 2 Prayer, newSnippet 3 Lesson]\<rparr>) =
     Inl UndefinedItem \<and>
   handleDeleteSnippet 1 [newSnippet 1 Verse, newSnippet 2 Prayer, newSnippet 3 Lesson] =
     [newSnippet 2 Prayer, newSnippet 3 Lesson] \<and>
   splice' 2 1 [] [newSnippet 2 Prayer, newSnippet 3 Lesson] =
     ([], [newSnippet 2 Prayer, newSnippet 3 Lesson]) \<and>
   reorder 2 0 [newSnippet 2 Prayer, newSnippet 3 Lesson] = None"
  by (simp add: handleDrop_def handleDragStart_def handleDeleteSnippet_def reorder_def
        splice'_def actualStart_def id_newSnippet)

section \<open>Properties of the download file name\<close>

lemma filename_no_meta: "\<not> metaExists xs \<Longrightarrow> filename xs = js ''content.json''"
proof -
  assume "\<not> metaExists xs"
  then have "metaSnippet xs = None"
    by (simp add: metaExists_def metaSnippet_def find_None_iff list_ex_iff)
  then show ?thesis by (simp add: filename_def)
qed

lemma filename_empty_date:
  "metaSnippet xs = Some m \<Longrightarrow> data m = MetaData t l [] y p i \<Longrightarrow> filename xs = js ''content.json''"
  by (simp add: filename_def)

lemma filename_example:
  "filename [\<lparr>id' = 1, type = js ''meta'', data = MetaData [] Tamil (js ''2024-03-07'') [] [] []\<rparr>]
     = js ''07-03-2024-TA.json''"
  by (simp add: filename_def metaSnippet_def js_def at_index_def template_def)

text \<open>
  C5. The file name is \<open>content.json\<close> without a Meta record and with a Meta record of
  empty date, and \<open>07-03-2024-TA.json\<close> for the date \<open>2024-03-07\<close> in Tamil, as the
  three lemmas above show. For a malformed date the name is not the default, although
  the comment in \<open>handleDownload\<close> says that it remains \<open>content.json\<close>: nothing in the
  \<open>try\<close> block throws, and the parts that the date lacks are printed as \<open>undefined\<close>.
  For the date \<open>2024-03\<close> the name is \<open>undefined-03-2024-EN.json\<close>.
\<close>

theorem filename_malformed_date:
  "filename [\<lparr>id' = 1, type = js ''meta'', data = MetaData [] English (js ''2024-03'') [] [] []\<rparr>]
     = js ''undefined-03-2024-EN.json'' \<and>
   filename [\<lparr>id' = 1, type = js ''meta'', data = MetaData [] English (js ''2024-03'') [] [] []\<rparr>]
     \<noteq> js ''content.json''"
  by (simp add: filename_def metaSnippet_def js_def at_index_def template_def)

section \<open>Properties of the serializer\<close>

lemma well_typed_newSnippet: "well_typed (newSnippet now t)"
  by (cases t) (simp_all add: well_typed_def newSnippet_def)

lemma recognized_iff:
  "recognized s \<longleftrightarrow>
     type s = js ''meta'' \<or> type s = js ''verse'' \<or> type s = js ''paragraph'' \<or>
     type s = js ''prayer'' \<or> type s = js ''lesson''"
  by (auto simp add: recognized_def)

lemma output_entry_unrecognized: "\<not> recognized s \<Longrightarrow> output_entry s = None"
  by (simp add: recognized_iff output_entry_def)

lemma output_entry_recognized: "recognized s \<Longrightarrow> output_entry s \<noteq> None"
  by (auto simp add: recognized_iff output_entry_def)

lemma output_entry_well_typed:
  "well_typed s \<Longrightarrow> output_entry s = Some (spec_shape (data s))"
  by (cases "data s") (simp_all add: well_typed_def output_entry_def js_def)

lemma output_array_Cons:
  "output_array (s # xs) =
     (case output_entry s of None \<Rightarrow> output_array xs | Some e \<Rightarrow> e # output_array xs)"
  by (simp add: output_array_def split: option.split)

text \<open>
  C6. For every list of records in which each record of a recognized kind carries the
  payload of its kind, the serializer's array is the one the specification describes:
  the objects of the records of recognized kind, each of the exact shape of its kind
  with the fields in the listed order, in the order of the list; records of any other
  kind are left out.
\<close>

theorem output_array_refines_spec:
  "\<forall>s \<in> set xs. recognized s \<longrightarrow> well_typed s \<Longrightarrow> output_array xs = spec_serialize xs"
proof (induction xs)
  case Nil
  then show ?case by (simp add: output_array_def spec_serialize_def)
next
  case (Cons s xs)
  then have IH: "output_array xs = spec_serialize xs" by simp
  show ?case
  proof (cases "recognized s")
    case True
    with Cons.prems have "well_typed s" by simp
    then have "output_entry s = Some (spec_shape (data s))"
      by (rule output_entry_well_typed)
    with True IH show ?thesis
      by (simp add: output_array_Cons spec_serialize_def)
  next
    case False
    then have "output_entry s = None" by (rule output_entry_unrecognized)
    with False IH show ?thesis
      by (simp add: output_array_Cons spec_serialize_def)
  qed
qed

theorem output_array_refines_spec_witness:
  "output_array [\<lparr>id' = 1, type = js ''verse'', data = VerseData (js ''John 3:16'') (js ''For God'')\<rparr>,
               \<lparr>id' = 2, type = js ''video'', data = ParagraphData (js ''x'')\<rparr>,
               \<lparr>id' = 3, type = js ''meta'', data = MetaData (js ''T'') Tamil (js ''2024-03-07'') [] [] []\<rparr>] =
     [[(js ''type'', Some (js ''verse'')), (js ''reference'', Some (js ''John 3:16'')),
       (js ''text'', Some (js ''For God''))],
      [(js ''type'', Some (js ''meta'')), (js ''title'', Some (js ''T'')),
       (js ''language'', Some (js ''Tamil'')), (js ''date'', Some (js ''2024-03-07'')),
       (js ''youtubeUrl'', Some []), (js ''pdfUrl'', Some []), (js ''imageUrl'', Some [])]]"
proof -
  let ?xs = "[\<lparr>id' = 1, type = js ''verse'', data = VerseData (js ''John 3:16'') (js ''For God'')\<rparr>,
               \<lparr>id' = 2, type = js ''video'', data = ParagraphData (js ''x'')\<rparr>,
               \<lparr>id' = 3, type = js ''meta'', data = MetaData (js ''T'') Tamil (js ''2024-03-07'') [] [] []\<rparr>]"
  have h: "\<forall>s \<in> set ?xs. recognized s \<longrightarrow> well_typed s"
    by (simp add: well_typed_def recognized_iff) (simp add: js_def)
  have r: "filter recognized ?xs = [?xs ! 0, ?xs ! 2]"
    by (simp add: recognized_iff) (simp add: js_def)
  have e: "output_array ?xs = spec_serialize ?xs"
    by (rule output_array_refines_spec [OF h])
  have v: "spec_serialize ?xs =
     [[(js ''type'', Some (js ''verse'')), (js ''reference'', Some (js ''John 3:16'')),
       (js ''text'', Some (js ''For God''))],
      [(js ''type'', Some (js ''meta'')), (js ''title'', Some (js ''T'')),
       (js ''language'', Some (js ''Tamil'')), (js ''date'', Some (js ''2024-03-07'')),
       (js ''youtubeUrl'', Some []), (js ''pdfUrl'', Some []), (js ''imageUrl'', Some [])]]"
    unfolding spec_serialize_def r by simp
  from e v show ?thesis by (rule trans)
qed

section \<open>Properties of the converter\<close>

lemma is_space_LF: "is_space LF"
  by (simp add: is_space_def LF_def)

lemma takeWhile_space_run:
  "\<forall>c \<in> set w. is_space c \<Longrightarrow>
     takeWhile is_space (w @ LF # b) = w @ LF # takeWhile is_space b"
  by (simp add: takeWhile_append2 is_space_LF)

lemma dropWhile_space_run:
  "\<forall>c \<in> set w. is_space c \<Longrightarrow> dropWhile is_space (w @ LF # b) = dropWhile is_space b"
  by (simp add: dropWhile_append2 is_space_LF)

lemma after_last_LF:
  assumes "LF \<notin> set v"
  shows "rev (takeWhile (\<lambda>x. x \<noteq> LF) (rev v @ LF # rev w)) = v"
proof -
  have "takeWhile (\<lambda>x. x \<noteq> LF) (rev v @ LF # rev w) = takeWhile (\<lambda>x. x \<noteq> LF) (rev v)"
    by (simp add: takeWhile_tail)
  also have "\<dots> = rev v"
    using assms by (auto simp add: takeWhile_eq_all_conv)
  finally show ?thesis by simp
qed

lemma replace_blank_lines_match:
  assumes w: "\<forall>c \<in> set w. is_space c" and b: "LF \<notin> set (takeWhile is_space b)"
  shows "replace_blank_lines (LF # w @ LF # b) = LF # LF # replace_blank_lines b"
proof -
  have t: "takeWhile is_space (w @ LF # b) = w @ LF # takeWhile is_space b"
    using w by (rule takeWhile_space_run)
  have d: "dropWhile is_space (w @ LF # b) = dropWhile is_space b"
    using w by (rule dropWhile_space_run)
  show ?thesis
    using b by (simp add: t d after_last_LF)
qed

lemma after_match_leading: "LF \<notin> set (takeWhile is_space (after_match cs))"
proof -
  let ?v = "rev (takeWhile (\<lambda>x. x \<noteq> LF) (rev (takeWhile is_space cs)))"
  have v_space: "\<forall>c \<in> set ?v. is_space c"
    by (auto dest!: set_takeWhileD)
  have v_LF: "LF \<notin> set ?v"
    by (auto dest!: set_takeWhileD)
  have d: "takeWhile is_space (dropWhile is_space cs) = []"
    by (induction cs) auto
  have "takeWhile is_space (?v @ dropWhile is_space cs) =
          ?v @ takeWhile is_space (dropWhile is_space cs)"
    by (rule takeWhile_append2) (use v_space in blast)
  then have "takeWhile is_space (after_match cs) = ?v"
    by (simp only: after_match_def d append_Nil2)
  with v_LF show ?thesis by simp
qed

lemma leading_space_kept:
  "LF \<notin> set (takeWhile is_space x) \<Longrightarrow>
     takeWhile is_space (replace_blank_lines x) = takeWhile is_space x"
  by (induction x) (auto simp add: is_space_LF)

lemma LF_in_leading:
  "x = w @ LF # q \<Longrightarrow> \<forall>c \<in> set w. is_space c \<Longrightarrow> LF \<in> set (takeWhile is_space x)"
  by (simp add: takeWhile_space_run is_space_LF)

lemma replace_blank_lines_Cons:
  "replace_blank_lines (c # cs) =
     (if c = LF \<and> LF \<in> set (takeWhile is_space cs)
      then LF # LF # replace_blank_lines (after_match cs)
      else c # replace_blank_lines cs)"
  by (simp add: after_match_def)

lemma nonspace_kept:
  "filter (\<lambda>c. \<not> is_space c) (replace_blank_lines s) = filter (\<lambda>c. \<not> is_space c) s"
proof (induction s rule: replace_blank_lines.induct)
  case 1
  show ?case by simp
next
  case (2 c cs)
  show ?case
  proof (cases "c = LF \<and> LF \<in> set (takeWhile is_space cs)")
    case True
    let ?f = "filter (\<lambda>c. \<not> is_space c)"
    have w: "?f (takeWhile is_space cs) = []"
      by (auto simp add: filter_empty_conv dest: set_takeWhileD)
    have v: "?f (rev (takeWhile (\<lambda>x. x \<noteq> LF) (rev (takeWhile is_space cs)))) = []"
      by (auto simp add: filter_empty_conv dest!: set_takeWhileD)
    have "?f cs = ?f (takeWhile is_space cs @ dropWhile is_space cs)"
      by simp
    also have "\<dots> = ?f (dropWhile is_space cs)"
      using w by (simp del: takeWhile_dropWhile_id)
    finally have cs: "?f cs = ?f (dropWhile is_space cs)" .
    have "?f (replace_blank_lines (c # cs)) = ?f (replace_blank_lines (after_match cs))"
      using True by (simp add: replace_blank_lines_Cons is_space_LF del: replace_blank_lines.simps)
    also have "\<dots> = ?f (after_match cs)"
      using 2(1) True by (simp add: after_match_def)
    also have "\<dots> = ?f (dropWhile is_space cs)"
      using v by (simp add: after_match_def)
    also have "\<dots> = ?f (c # cs)"
      using True cs by (simp add: is_space_LF)
    finally show ?thesis .
  next
    case False
    then show ?thesis using 2(2) by auto
  qed
qed

lemma blank_line_exact:
  "replace_blank_lines s = p @ LF # w @ LF # q \<Longrightarrow> \<forall>c \<in> set w. is_space c \<Longrightarrow> w = []"
proof (induction s arbitrary: p rule: replace_blank_lines.induct)
  case 1
  then show ?case by simp
next
  case (2 c cs)
  show ?case
  proof (cases "c = LF \<and> LF \<in> set (takeWhile is_space cs)")
    case True
    then have out: "LF # LF # replace_blank_lines (after_match cs) = p @ LF # w @ LF # q"
      using 2(3) by (simp add: replace_blank_lines_Cons del: replace_blank_lines.simps)
    have K: "LF \<notin> set (takeWhile is_space (replace_blank_lines (after_match cs)))"
      using after_match_leading [of cs] by (simp add: leading_space_kept)
    show ?thesis
    proof (cases p)
      case Nil
      with out have e: "w @ LF # q = LF # replace_blank_lines (after_match cs)" by simp
      show ?thesis
      proof (cases w)
        case Nil
        then show ?thesis .
      next
        case (Cons x w')
        with e have "replace_blank_lines (after_match cs) = w' @ LF # q" by simp
        moreover have "\<forall>c \<in> set w'. is_space c" using 2(4) Cons by simp
        ultimately have "LF \<in> set (takeWhile is_space (replace_blank_lines (after_match cs)))"
          by (rule LF_in_leading)
        with K show ?thesis by simp
      qed
    next
      case (Cons x p')
      show ?thesis
      proof (cases p')
        case Nil
        with Cons out have "replace_blank_lines (after_match cs) = w @ LF # q" by simp
        then have "LF \<in> set (takeWhile is_space (replace_blank_lines (after_match cs)))"
          using 2(4) by (rule LF_in_leading)
        with K show ?thesis by simp
      next
        case (Cons y p'')
        with \<open>p = x # p'\<close> out have "replace_blank_lines (after_match cs) = p'' @ LF # w @ LF # q"
          by simp
        then show ?thesis
          using 2(1) True 2(4) by (simp add: after_match_def)
      qed
    qed
  next
    case False
    then have "replace_blank_lines (c # cs) = c # replace_blank_lines cs"
      by (simp only: replace_blank_lines_Cons if_False)
    then have out: "c # replace_blank_lines cs = p @ LF # w @ LF # q"
      using 2(3) by (simp del: replace_blank_lines.simps)
    show ?thesis
    proof (cases p)
      case Nil
      with out have c: "c = LF" and e: "replace_blank_lines cs = w @ LF # q" by simp_all
      from e 2(4) have "LF \<in> set (takeWhile is_space (replace_blank_lines cs))"
        by (rule LF_in_leading)
      moreover from c False have "LF \<notin> set (takeWhile is_space cs)" by simp
      ultimately show ?thesis by (simp add: leading_space_kept)
    next
      case (Cons x p')
      with out have "replace_blank_lines cs = p' @ LF # w @ LF # q" by simp
      then show ?thesis using 2(2) False 2(4) by blast
    qed
  qed
qed

lemma trailing_Cons:
  "LF \<notin> set (takeWhile is_space (rev (c # cs))) \<Longrightarrow> LF \<notin> set (takeWhile is_space (rev cs))"
  by (auto simp add: takeWhile_append split: if_splits dest: set_takeWhileD)

lemma trailing_LF_nonspace:
  "LF \<notin> set (takeWhile is_space (rev (LF # cs))) \<Longrightarrow> \<exists>x \<in> set cs. \<not> is_space x"
  by (auto simp add: takeWhile_append is_space_LF split: if_splits)

lemma trailing_after_match:
  assumes "\<exists>x \<in> set cs. \<not> is_space x"
  shows "takeWhile is_space (rev (after_match cs)) = takeWhile is_space (rev cs)"
proof -
  let ?v = "rev (takeWhile (\<lambda>x. x \<noteq> LF) (rev (takeWhile is_space cs)))"
  let ?r = "dropWhile is_space cs"
  from assms obtain x where x: "x \<in> set ?r" "\<not> is_space x"
    by (metis dropWhile_eq_Nil_conv hd_dropWhile hd_in_set)
  then have xr: "x \<in> set (rev ?r)" by simp
  have "takeWhile is_space (rev (after_match cs)) = takeWhile is_space (rev ?r @ rev ?v)"
    by (simp add: after_match_def)
  also have "\<dots> = takeWhile is_space (rev ?r)"
    using xr x(2) by (rule takeWhile_append1)
  also have "\<dots> = takeWhile is_space (rev ?r @ rev (takeWhile is_space cs))"
    using xr x(2) by (rule takeWhile_append1 [symmetric])
  also have "\<dots> = takeWhile is_space (rev cs)"
    by (simp only: rev_append [symmetric] takeWhile_dropWhile_id)
  finally show ?thesis .
qed

lemma after_match_append:
  assumes "\<exists>x \<in> set cs. \<not> is_space x"
  shows "takeWhile is_space (cs @ s) = takeWhile is_space cs" and "after_match (cs @ s) = after_match cs @ s"
proof -
  from assms obtain x where x: "x \<in> set cs" "\<not> is_space x" by blast
  show t: "takeWhile is_space (cs @ s) = takeWhile is_space cs"
    using x by (rule takeWhile_append1)
  have d: "dropWhile is_space (cs @ s) = dropWhile is_space cs @ s"
    using x by (rule dropWhile_append1)
  show "after_match (cs @ s) = after_match cs @ s"
    by (simp add: after_match_def t d)
qed

lemma replace_blank_lines_append:
  "LF \<notin> set (takeWhile is_space (rev a)) \<Longrightarrow>
     replace_blank_lines (a @ s) = replace_blank_lines a @ replace_blank_lines s"
proof (induction a rule: replace_blank_lines.induct)
  case 1
  show ?case by simp
next
  case (2 c cs)
  have tail: "LF \<notin> set (takeWhile is_space (rev cs))"
    using 2(3) by (rule trailing_Cons)
  show ?case
  proof (cases "c = LF")
    case True
    with 2(3) have ns: "\<exists>x \<in> set cs. \<not> is_space x"
      using trailing_LF_nonspace by blast
    note ra = after_match_append [OF ns, of s]
    show ?thesis
    proof (cases "LF \<in> set (takeWhile is_space cs)")
      case yes: True
      have "LF \<notin> set (takeWhile is_space (rev (after_match cs)))"
        using tail by (simp add: trailing_after_match [OF ns])
      then have IH: "replace_blank_lines (after_match cs @ s) =
          replace_blank_lines (after_match cs) @ replace_blank_lines s"
        using 2(1) True yes by (simp add: after_match_def)
      have "replace_blank_lines ((c # cs) @ s) = LF # LF # replace_blank_lines (after_match cs @ s)"
        using True yes ra by (simp add: replace_blank_lines_Cons del: replace_blank_lines.simps)
      also have "\<dots> = replace_blank_lines (c # cs) @ replace_blank_lines s"
        using True yes IH by (simp add: replace_blank_lines_Cons del: replace_blank_lines.simps)
      finally show ?thesis .
    next
      case no: False
      have IH: "replace_blank_lines (cs @ s) = replace_blank_lines cs @ replace_blank_lines s"
        using 2(2) no tail by simp
      have "replace_blank_lines ((c # cs) @ s) = c # replace_blank_lines (cs @ s)"
        using no ra by (simp add: replace_blank_lines_Cons del: replace_blank_lines.simps)
      also have "\<dots> = replace_blank_lines (c # cs) @ replace_blank_lines s"
        using no IH by (simp add: replace_blank_lines_Cons del: replace_blank_lines.simps)
      finally show ?thesis .
    qed
  next
    case False
    have IH: "replace_blank_lines (cs @ s) = replace_blank_lines cs @ replace_blank_lines s"
      using 2(2) False tail by simp
    have "replace_blank_lines ((c # cs) @ s) = c # replace_blank_lines (cs @ s)"
      using False by (simp add: replace_blank_lines_Cons del: replace_blank_lines.simps)
    also have "\<dots> = replace_blank_lines (c # cs) @ replace_blank_lines s"
      using False IH by (simp add: replace_blank_lines_Cons del: replace_blank_lines.simps)
    finally show ?thesis .
  qed
qed

lemma replace_blank_lines_run:
  assumes "LF \<notin> set (takeWhile is_space (rev a))" and "\<forall>c \<in> set w. is_space c"
    and "LF \<notin> set (takeWhile is_space b)"
  shows "replace_blank_lines (a @ [LF] @ w @ [LF] @ b) =
           replace_blank_lines a @ [LF, LF] @ replace_blank_lines b"
proof -
  have "replace_blank_lines (a @ LF # w @ LF # b) =
          replace_blank_lines a @ replace_blank_lines (LF # w @ LF # b)"
    using assms(1) by (rule replace_blank_lines_append)
  also have "\<dots> = replace_blank_lines a @ LF # LF # replace_blank_lines b"
    using replace_blank_lines_match [OF assms(2,3)] by (simp del: replace_blank_lines.simps)
  finally show ?thesis by (simp del: replace_blank_lines.simps)
qed

lemma spec_transform_eq: "spec_transform t children = tagName_switch t children"
  by (simp add: spec_transform_def tagName_switch_def)

lemma concat_map_filter_if:
  "concat (map f (filter P xs)) = concat (map (\<lambda>x. if P x then f x else []) xs)"
  by (induction xs) simp_all

lemma walk_removed_spec: "walk (remove_script_style n) = spec_render n"
proof (induction n)
  case (Text t)
  show ?case by simp
next
  case (Element t ns)
  have "concat (map (walk \<circ> remove_script_style) (filter (\<lambda>n. \<not> is_script_or_style n) ns)) =
        concat (map (\<lambda>n. if \<not> is_script_or_style n then (walk \<circ> remove_script_style) n else []) ns)"
    by (rule concat_map_filter_if)
  also have "\<dots> = concat (map (\<lambda>n. if is_script_or_style n then [] else spec_render n) ns)"
    using Element.IH by (auto intro!: arg_cong [where f = concat])
  finally show ?case
    by (simp add: spec_transform_eq)
next
  case Other
  show ?case by simp
qed

lemma is_script_or_style_removed:
  "is_script_or_style (remove_script_style n) = is_script_or_style n"
  by (cases n) (simp_all add: is_script_or_style_def)

lemma no_script_style_left: "\<not> contains_script_style (remove_script_style n)"
  by (induction n) (auto simp add: list_ex_iff is_script_or_style_removed)







lemma rendered_body_bold:
  "trim (replace_blank_lines (walk (remove_script_style body_bold))) = js ''**Hi** there''"
  by (simp add: body_bold_def is_script_or_style_def tagName_switch_def js_def trim_def
        is_space_def LF_def)

lemma rendered_body_list:
  "trim (replace_blank_lines (walk (remove_script_style body_list))) =
     js ''- one'' @ [LF] @ js ''- two''"
  by (simp add: body_list_def is_script_or_style_def tagName_switch_def js_def trim_def
        is_space_def LF_def)

lemma rendered_body_script:
  "trim (replace_blank_lines (walk (remove_script_style body_script))) = js ''Safe''"
  by (simp add: body_script_def is_script_or_style_def tagName_switch_def js_def trim_def
        is_space_def LF_def)

lemma example_documents:
  "js ''<body>'' @ js ''<b>Hi</b> there'' @ js ''</body>'' = js ''<body><b>Hi</b> there</body>''"
  "js ''<body>'' @ js ''<ul><li>one</li><li>two</li></ul>'' @ js ''</body>'' =
     js ''<body><ul><li>one</li><li>two</li></ul></body>''"
  "js ''<body>'' @ js ''<script>evil()</script>Safe'' @ js ''</body>'' =
     js ''<body><script>evil()</script>Safe</body>''"
  by (simp_all add: js_def)

lemma example_fragments_nonempty:
  "js ''<b>Hi</b> there'' \<noteq> []"
  "js ''<ul><li>one</li><li>two</li></ul>'' \<noteq> []"
  "js ''<script>evil()</script>Safe'' \<noteq> []"
  by (simp_all add: js_def)

text \<open>
  C7. With a parser that builds the standard trees for the three example fragments, the
  converter turns \<open><b>Hi</b> there\<close> into \<open>**Hi** there\<close>, the list of the items one and
  two into the lines \<open>- one\<close> and \<open>- two\<close>, and \<open><script>evil()</script>Safe\<close> into
  \<open>Safe\<close>. For every parser and every input that is not empty, the result is the
  rendering of the specification's table of tags (bold in \<open>**\<close>, list items as lines
  that start with \<open>- \<close>, script and style elements yielding nothing at any depth), with
  the replacement applied and then trimmed; after the removal no script or style element
  is left anywhere below the body. The replacement leaves at most one blank line: in
  its result, two line feeds with only white space between them are adjacent. It keeps
  every character that is no white space, in order. It turns every run of a line feed,
  white space and a last line feed of that white space into exactly two line feeds,
  wherever the run stands: the text before and the text behind are treated on their
  own.
\<close>

theorem htmlToMarkdown_examples:
  assumes "parseFromString (js ''<body><b>Hi</b> there</body>'') = body_bold"
    and "parseFromString (js ''<body><ul><li>one</li><li>two</li></ul></body>'') = body_list"
    and "parseFromString (js ''<body><script>evil()</script>Safe</body>'') = body_script"
  shows "htmlToMarkdown parseFromString (js ''<b>Hi</b> there'') = js ''**Hi** there'' \<and>
         htmlToMarkdown parseFromString (js ''<ul><li>one</li><li>two</li></ul>'') =
           js ''- one'' @ [LF] @ js ''- two'' \<and>
         htmlToMarkdown parseFromString (js ''<script>evil()</script>Safe'') = js ''Safe'' \<and>
         (html \<noteq> [] \<longrightarrow>
            htmlToMarkdown parseFromString html =
              trim (replace_blank_lines
                (spec_render (parseFromString (js ''<body>'' @ html @ js ''</body>''))))) \<and>
         \<not> contains_script_style (remove_script_style n) \<and>
         ((\<forall>c \<in> set v. is_space c) \<and> replace_blank_lines s = p @ [LF] @ v @ [LF] @ q \<longrightarrow>
            v = []) \<and>
         filter (\<lambda>c. \<not> is_space c) (replace_blank_lines s) = filter (\<lambda>c. \<not> is_space c) s \<and>
         (LF \<notin> set (takeWhile is_space (rev a)) \<and> (\<forall>c \<in> set w. is_space c) \<and>
          LF \<notin> set (takeWhile is_space b) \<longrightarrow>
            replace_blank_lines (a @ [LF] @ w @ [LF] @ b) =
              replace_blank_lines a @ [LF, LF] @ replace_blank_lines b)"
proof -
  have 1: "htmlToMarkdown parseFromString (js ''<b>Hi</b> there'') = js ''**Hi** there''"
    unfolding htmlToMarkdown_def Let_def example_documents assms(1) rendered_body_bold
    using example_fragments_nonempty(1) by simp
  have 2: "htmlToMarkdown parseFromString (js ''<ul><li>one</li><li>two</li></ul>'') =
           js ''- one'' @ [LF] @ js ''- two''"
    unfolding htmlToMarkdown_def Let_def example_documents assms(2) rendered_body_list
    using example_fragments_nonempty(2) by simp
  have 3: "htmlToMarkdown parseFromString (js ''<script>evil()</script>Safe'') = js ''Safe''"
    unfolding htmlToMarkdown_def Let_def example_documents assms(3) rendered_body_script
    using example_fragments_nonempty(3) by simp
  have 4: "html \<noteq> [] \<longrightarrow>
            htmlToMarkdown parseFromString html =
              trim (replace_blank_lines
                (spec_render (parseFromString (js ''<body>'' @ html @ js ''</body>''))))"
    by (simp add: htmlToMarkdown_def Let_def walk_removed_spec)
  have 5: "\<not> contains_script_style (remove_script_style n)"
    by (rule no_script_style_left)
  have 6: "(\<forall>c \<in> set v. is_space c) \<and> replace_blank_lines s = p @ [LF] @ v @ [LF] @ q \<longrightarrow>
            v = []"
    using blank_line_exact [of s p v q] by simp
  have 7: "filter (\<lambda>c. \<not> is_space c) (replace_blank_lines s) = filter (\<lambda>c. \<not> is_space c) s"
    by (rule nonspace_kept)
  have 8: "LF \<notin> set (takeWhile is_space (rev a)) \<and> (\<forall>c \<in> set w. is_space c) \<and>
          LF \<notin> set (takeWhile is_space b) \<longrightarrow>
            replace_blank_lines (a @ [LF] @ w @ [LF] @ b) =
              replace_blank_lines a @ [LF, LF] @ replace_blank_lines b"
    using replace_blank_lines_run [of a w b] by blast
  from 1 2 3 4 5 6 7 8 show ?thesis by blast
qed

theorem htmlToMarkdown_examples_witness:
  "htmlToMarkdown example_parser (js ''<b>Hi</b> there'') = js ''**Hi** there'' \<and>
   htmlToMarkdown example_parser (js ''<ul><li>one</li><li>two</li></ul>'') =
     js ''- one'' @ [LF] @ js ''- two'' \<and>
   htmlToMarkdown example_parser (js ''<script>evil()</script>Safe'') = js ''Safe'' \<and>
   htmlToMarkdown example_parser (js ''<script>evil()</script>Safe'') =
     trim (replace_blank_lines (spec_render body_script)) \<and>
   \<not> contains_script_style (remove_script_style body_script) \<and>
   replace_blank_lines (js ''x'' @ [LF] @ js '' '' @ [LF, LF] @ js ''y'') =
     js ''x'' @ [LF] @ [] @ [LF] @ js ''y'' \<and>
   replace_blank_lines (js ''A'' @ [LF] @ js ''B'' @ [LF] @ js '' '' @ [LF] @ js ''C'') =
     js ''A'' @ [LF] @ js ''B'' @ [LF, LF] @ js ''C''"
proof -
  have p1: "example_parser (js ''<body><b>Hi</b> there</body>'') = body_bold"
    by (simp add: example_parser_def)
  have p2: "example_parser (js ''<body><ul><li>one</li><li>two</li></ul></body>'') = body_list"
    by (simp add: example_parser_def js_def)
  have p3: "example_parser (js ''<body><script>evil()</script>Safe</body>'') = body_script"
    by (simp add: example_parser_def js_def)
  have s: "replace_blank_lines (js ''x'' @ [LF] @ js '' '' @ [LF, LF] @ js ''y'') =
     js ''x'' @ [LF] @ [] @ [LF] @ js ''y''"
    by (simp add: js_def LF_def is_space_def)
  have h: "LF \<notin> set (takeWhile is_space (rev (js ''A'' @ [LF] @ js ''B'')))"
    "\<forall>c \<in> set (js '' ''). is_space c" "LF \<notin> set (takeWhile is_space (js ''C''))"
    by (simp_all add: js_def LF_def is_space_def)
  have ab: "replace_blank_lines (js ''A'' @ [LF] @ js ''B'') = js ''A'' @ [LF] @ js ''B''"
    "replace_blank_lines (js ''C'') = js ''C''"
    by (simp_all add: js_def LF_def is_space_def)
  note t = htmlToMarkdown_examples [OF p1 p2 p3,
      of "js ''<script>evil()</script>Safe''" body_script "[]"
         "js ''x'' @ [LF] @ js '' '' @ [LF, LF] @ js ''y''" "js ''x''" "js ''y''"
         "js ''A'' @ [LF] @ js ''B''" "js '' ''" "js ''C''"]
  have run: "replace_blank_lines (js ''A'' @ [LF] @ js ''B'' @ [LF] @ js '' '' @ [LF] @ js ''C'') =
     js ''A'' @ [LF] @ js ''B'' @ [LF, LF] @ js ''C''"
    using t h ab by (simp del: replace_blank_lines.simps)
  have "js ''<script>evil()</script>Safe'' \<noteq> [] \<longrightarrow>
      htmlToMarkdown example_parser (js ''<script>evil()</script>Safe'') =
        trim (replace_blank_lines (spec_render (example_parser
          (js ''<body>'' @ js ''<script>evil()</script>Safe'' @ js ''</body>''))))"
    using t by blast
  then have spec: "htmlToMarkdown example_parser (js ''<script>evil()</script>Safe'') =
     trim (replace_blank_lines (spec_render body_script))"
    unfolding example_documents p3 using example_fragments_nonempty(3) by blast
  from t s run spec show ?thesis by blast
qed




end
